theory Spec2Isabelle
  imports Main
begin

section \<open>The soft-delete visibility hook of \<^verbatim>\<open>safedelete/query.py\<close>\<close>

text \<open>
  \<^verbatim>\<open>SafeDeleteQuery\<close> specialises Django's \<^verbatim>\<open>sql.Query\<close>. The class adds four
  attributes and five methods; everything else is the base class, which is not part of
  the repository. The base class is therefore a parameter of the model: a record of the
  five base-class methods the code calls, over an arbitrary type \<open>'h\<close> of base-class
  states. Every theorem below holds for every such host.
\<close>

subsection \<open>Configuration\<close>

text \<open>
  Modelled from the spec: the module \<^verbatim>\<open>safedelete/config.py\<close>, which is not among
  the source files at hand. The module under study imports four mode constants (integers,
  by the annotation \<^verbatim>\<open>_safedelete_visibility: int\<close>) and the name of the
  deleted-marker field from it; the spec calls them configuration values supplied from
  outside. They are a parameter of every definition that reads them.
\<close>

record config =
  DELETED_INVISIBLE :: int
  DELETED_ONLY_VISIBLE :: int
  DELETED_VISIBLE :: int
  DELETED_VISIBLE_BY_FIELD :: int
  FIELD_NAME :: string

text \<open>
  Modelled from the spec: the values of the four constants, of which the spec says that
  the visibility mode is an enumeration of four values. So they are pairwise different.
\<close>

definition config_ok :: "config \<Rightarrow> bool" where
  "config_ok cfg =
     distinct [DELETED_INVISIBLE cfg, DELETED_ONLY_VISIBLE cfg,
               DELETED_VISIBLE cfg, DELETED_VISIBLE_BY_FIELD cfg]"

subsection \<open>The host query layer\<close>

text \<open>
  \<^verbatim>\<open>Q(**{name: value})\<close>: a condition object built from keyword arguments. The only
  one the code builds has a single boolean-valued lookup.
\<close>

datatype q_object = Q "(string \<times> bool) list"

text \<open>
  The base-class methods called through \<^verbatim>\<open>self\<close> and \<^verbatim>\<open>super()\<close>:
  \<^verbatim>\<open>can_filter()\<close>, \<^verbatim>\<open>add_q(q)\<close>, \<^verbatim>\<open>clone()\<close>,
  \<^verbatim>\<open>get_compiler(*args, **kwargs)\<close> and \<^verbatim>\<open>set_limits(low, high)\<close>.
  \<open>'h\<close> is the state of the base object, \<open>'a\<close> the arguments of
  \<^verbatim>\<open>get_compiler\<close>, \<open>'c\<close> what it returns. A base method that mutates its object
  returns the new state; the base class knows nothing of the four attributes below and
  leaves them alone.
\<close>

record ('h, 'a, 'c) host_ops =
  can_filter :: "'h \<Rightarrow> bool"
  add_q :: "q_object \<Rightarrow> 'h \<Rightarrow> 'h"
  super_clone :: "'h \<Rightarrow> 'h"
  super_get_compiler :: "'a \<Rightarrow> 'h \<Rightarrow> 'c \<times> 'h"
  super_set_limits :: "int option \<Rightarrow> int option \<Rightarrow> 'h \<Rightarrow> 'h"

subsection \<open>The query object\<close>

text \<open>
  The four attributes of the class, with the types it declares for them. The class body
  gives \<^verbatim>\<open>_safedelete_filter_applied\<close> the default \<^verbatim>\<open>False\<close> and
  \<^verbatim>\<open>_safedelete_force_visibility\<close> the default \<^verbatim>\<open>None\<close>; the other two are
  declared without a default and assigned by whoever constructs the query. The record is
  an instance on which they have been assigned, as their declared types say; an instance
  built without them is not a value of this type. \<open>host\<close> is the state of the base
  object. The mode attributes are integers, so a query can hold a number that is none of
  the four modes; the code then treats it as it treats VISIBLE.
\<close>

record 'h SafeDeleteQuery =
  host :: 'h
  safedelete_filter_applied :: bool
  safedelete_force_visibility :: "int option"
  safedelete_visibility :: int
  safedelete_visibility_field :: string

text \<open>
  \<^verbatim>\<open>check_field_filter(self, **kwargs)\<close>. The keyword arguments are a dictionary
  with string keys. The method mutates \<^verbatim>\<open>self\<close> and returns \<^verbatim>\<open>None\<close>: the
  model returns the new \<^verbatim>\<open>self\<close>.
\<close>

definition check_field_filter ::
  "config \<Rightarrow> (string \<rightharpoonup> 'v) \<Rightarrow> 'h SafeDeleteQuery \<Rightarrow> 'h SafeDeleteQuery" where
  "check_field_filter cfg kwargs self =
     (if safedelete_visibility self = DELETED_VISIBLE_BY_FIELD cfg
         \<and> safedelete_visibility_field self \<in> dom kwargs
      then self\<lparr>safedelete_force_visibility := Some (DELETED_VISIBLE cfg)\<rparr>
      else self)"

text \<open>
  Lines 47 to 50 of \<^verbatim>\<open>_filter_visibility\<close>: the mode that decides, which is
  \<^verbatim>\<open>_safedelete_force_visibility\<close> unless that is \<^verbatim>\<open>None\<close>. (The attribute is
  read with \<^verbatim>\<open>getattr(..., None)\<close>; the class default makes the two readings agree.)
\<close>

definition effective_visibility :: "'h SafeDeleteQuery \<Rightarrow> int" where
  "effective_visibility self =
     (case safedelete_force_visibility self of
        Some force_visibility \<Rightarrow> force_visibility
      | None \<Rightarrow> safedelete_visibility self)"

text \<open>
  \<^verbatim>\<open>_filter_visibility(self)\<close>: the early return, then the membership test of line
  51, the call of \<^verbatim>\<open>add_q\<close> with the one condition
  \<^verbatim>\<open>FIELD_NAME + "__isnull"\<close>, and the flag.
\<close>

definition filter_visibility ::
  "config \<Rightarrow> ('h, 'a, 'c) host_ops \<Rightarrow> 'h SafeDeleteQuery \<Rightarrow> 'h SafeDeleteQuery" where
  "filter_visibility cfg H self =
     (if \<not> can_filter H (host self) \<or> safedelete_filter_applied self then self
      else
        let visibility = effective_visibility self in
        if visibility \<in> set [DELETED_INVISIBLE cfg, DELETED_VISIBLE_BY_FIELD cfg,
                              DELETED_ONLY_VISIBLE cfg]
        then self\<lparr>host :=
                     add_q H
                       (Q [(FIELD_NAME cfg @ ''__isnull'',
                            visibility \<in> set [DELETED_INVISIBLE cfg,
                                               DELETED_VISIBLE_BY_FIELD cfg])])
                       (host self),
                   safedelete_filter_applied := True\<rparr>
        else self)"

text \<open>
  \<^verbatim>\<open>clone(self)\<close>: the base class builds the new object, then the four attributes are
  assigned on it. \<^verbatim>\<open>hasattr(self, '_safedelete_force_visibility')\<close> holds on every
  instance, because the class body assigns the attribute; so the fourth assignment always
  runs, and it copies \<^verbatim>\<open>None\<close> when the parent never had an override.
\<close>

definition clone ::
  "('h, 'a, 'c) host_ops \<Rightarrow> 'h SafeDeleteQuery \<Rightarrow> 'h SafeDeleteQuery" where
  "clone H self =
     \<lparr>host = super_clone H (host self),
      safedelete_filter_applied = safedelete_filter_applied self,
      safedelete_force_visibility = safedelete_force_visibility self,
      safedelete_visibility = safedelete_visibility self,
      safedelete_visibility_field = safedelete_visibility_field self\<rparr>"

text \<open>
  \<^verbatim>\<open>get_compiler\<close> and \<^verbatim>\<open>set_limits\<close>: the filter, then the base method on
  the filtered object.
\<close>

definition get_compiler ::
  "config \<Rightarrow> ('h, 'a, 'c) host_ops \<Rightarrow> 'a \<Rightarrow> 'h SafeDeleteQuery \<Rightarrow> 'c \<times> 'h SafeDeleteQuery" where
  "get_compiler cfg H args self =
     (let self' = filter_visibility cfg H self;
          (compiler, h) = super_get_compiler H args (host self')
      in (compiler, self'\<lparr>host := h\<rparr>))"

definition set_limits ::
  "config \<Rightarrow> ('h, 'a, 'c) host_ops \<Rightarrow> int option \<Rightarrow> int option \<Rightarrow>
     'h SafeDeleteQuery \<Rightarrow> 'h SafeDeleteQuery" where
  "set_limits cfg H low high self =
     (let self' = filter_visibility cfg H self
      in self'\<lparr>host := super_set_limits H low high (host self')\<rparr>)"

subsection \<open>Sequences of calls\<close>

text \<open>
  The calls a caller can make on a query, and the life of a query under a sequence of
  them. \<open>Clone\<close> continues with the clone, as chained filtering does. \<open>run\<close> returns
  the compilers handed out on the way and the final object.
\<close>

datatype ('v, 'a) operation =
    CheckFieldFilter "string \<rightharpoonup> 'v"
  | FilterVisibility
  | Clone
  | GetCompiler 'a
  | SetLimits "int option" "int option"

fun step ::
  "config \<Rightarrow> ('h, 'a, 'c) host_ops \<Rightarrow> ('v, 'a) operation \<Rightarrow> 'h SafeDeleteQuery \<Rightarrow>
     'c list \<times> 'h SafeDeleteQuery" where
  "step cfg H (CheckFieldFilter kwargs) self = ([], check_field_filter cfg kwargs self)"
| "step cfg H FilterVisibility self = ([], filter_visibility cfg H self)"
| "step cfg H Clone self = ([], clone H self)"
| "step cfg H (GetCompiler args) self =
     ([fst (get_compiler cfg H args self)], snd (get_compiler cfg H args self))"
| "step cfg H (SetLimits low high) self = ([], set_limits cfg H low high self)"

fun run ::
  "config \<Rightarrow> ('h, 'a, 'c) host_ops \<Rightarrow> ('v, 'a) operation list \<Rightarrow> 'h SafeDeleteQuery \<Rightarrow>
     'c list \<times> 'h SafeDeleteQuery" where
  "run cfg H [] self = ([], self)"
| "run cfg H (x # xs) self =
     (fst (step cfg H x self) @ fst (run cfg H xs (snd (step cfg H x self))),
      snd (run cfg H xs (snd (step cfg H x self))))"

text \<open>A sequence of calls in which no filter call passes the keyword \<open>field\<close>.\<close>

fun never_passed :: "string \<Rightarrow> ('v, 'a) operation list \<Rightarrow> bool" where
  "never_passed field [] = True"
| "never_passed field (CheckFieldFilter kwargs # xs) =
     (field \<notin> dom kwargs \<and> never_passed field xs)"
| "never_passed field (x # xs) = never_passed field xs"

text \<open>
  What the base class alone does to its state under the same calls: the three
  delegations, and nothing for the two methods that exist only in the subclass.
\<close>

fun host_step :: "('h, 'a, 'c) host_ops \<Rightarrow> ('v, 'a) operation \<Rightarrow> 'h \<Rightarrow> 'h" where
  "host_step H (CheckFieldFilter kwargs) h = h"
| "host_step H FilterVisibility h = h"
| "host_step H Clone h = super_clone H h"
| "host_step H (GetCompiler args) h = snd (super_get_compiler H args h)"
| "host_step H (SetLimits low high) h = super_set_limits H low high h"

fun host_run :: "('h, 'a, 'c) host_ops \<Rightarrow> ('v, 'a) operation list \<Rightarrow> 'h \<Rightarrow> 'h" where
  "host_run H [] h = h"
| "host_run H (x # xs) h = host_run H xs (host_step H x h)"

subsection \<open>Objects in a store\<close>

text \<open>
  Query objects are mutable and live at addresses. A store is the list of the objects
  allocated so far, an address an index into it. \<^verbatim>\<open>clone\<close> allocates the new object
  at the next free address and leaves the parent as it is; a method call or an attribute
  assignment on the object at \<open>p\<close> is any function \<open>m\<close> applied there. An address
  that was never allocated gives \<open>None\<close>.
\<close>

type_synonym 'h store = "'h SafeDeleteQuery list"

definition clone_at ::
  "('h, 'a, 'c) host_ops \<Rightarrow> nat \<Rightarrow> 'h store \<Rightarrow> (nat \<times> 'h store) option" where
  "clone_at H p \<sigma> =
     (if p < length \<sigma> then Some (length \<sigma>, \<sigma> @ [clone H (\<sigma> ! p)]) else None)"

definition call_at ::
  "('h SafeDeleteQuery \<Rightarrow> 'h SafeDeleteQuery) \<Rightarrow> nat \<Rightarrow> 'h store \<Rightarrow> 'h store option" where
  "call_at m p \<sigma> = (if p < length \<sigma> then Some (\<sigma>[p := m (\<sigma> ! p)]) else None)"

subsection \<open>A host that records its calls\<close>

text \<open>
  One host among all: its state is the list of the base-class calls received so far, in
  order. It can be filtered until its first \<^verbatim>\<open>set_limits\<close>; a clone starts with a
  copy of its parent's list; the compiler it hands out is the list as it stood when the
  compiler was asked for. It serves to run the theorems on concrete queries.
\<close>

datatype 'a host_call =
    AddQ q_object
  | SuperGetCompiler 'a
  | SuperSetLimits "int option" "int option"

fun is_sliced :: "'a host_call list \<Rightarrow> bool" where
  "is_sliced [] = False"
| "is_sliced (SuperSetLimits low high # cs) = True"
| "is_sliced (c # cs) = is_sliced cs"

definition recording_host :: "('a host_call list, 'a, 'a host_call list) host_ops" where
  "recording_host =
     \<lparr>can_filter = (\<lambda>h. \<not> is_sliced h),
      add_q = (\<lambda>q h. h @ [AddQ q]),
      super_clone = (\<lambda>h. h),
      super_get_compiler = (\<lambda>args h. (h, h @ [SuperGetCompiler args])),
      super_set_limits = (\<lambda>low high h. h @ [SuperSetLimits low high])\<rparr>"

text \<open>Example values of the configuration, and example queries in each mode.\<close>

definition example_config :: config where
  "example_config =
     \<lparr>DELETED_INVISIBLE = 10, DELETED_ONLY_VISIBLE = 12, DELETED_VISIBLE = 13,
      DELETED_VISIBLE_BY_FIELD = 11, FIELD_NAME = ''deleted_at''\<rparr>"

definition example_query :: "int \<Rightarrow> unit host_call list SafeDeleteQuery" where
  "example_query mode =
     \<lparr>host = [], safedelete_filter_applied = False, safedelete_force_visibility = None,
      safedelete_visibility = mode, safedelete_visibility_field = ''include_deleted''\<rparr>"

section \<open>Properties\<close>

subsection \<open>Facts about single calls\<close>

lemmas hook_defs =
  check_field_filter_def filter_visibility_def clone_def get_compiler_def set_limits_def
  effective_visibility_def

lemmas example_defs =
  example_config_def example_query_def recording_host_def

lemma config_ok_example: "config_ok example_config"
  by (simp add: config_ok_def example_config_def)

lemma filter_visibility_noop:
  "\<not> can_filter H (host self) \<or> safedelete_filter_applied self \<Longrightarrow>
     filter_visibility cfg H self = self"
  by (auto simp: filter_visibility_def)

lemma filter_visibility_null:
  assumes "can_filter H (host self)" "\<not> safedelete_filter_applied self"
    and "effective_visibility self = DELETED_INVISIBLE cfg
         \<or> effective_visibility self = DELETED_VISIBLE_BY_FIELD cfg"
  shows "filter_visibility cfg H self =
           self\<lparr>host := add_q H (Q [(FIELD_NAME cfg @ ''__isnull'', True)]) (host self),
                safedelete_filter_applied := True\<rparr>"
  using assms by (auto simp: filter_visibility_def Let_def)

lemma filter_visibility_not_null:
  assumes "config_ok cfg" "can_filter H (host self)" "\<not> safedelete_filter_applied self"
    and "effective_visibility self = DELETED_ONLY_VISIBLE cfg"
  shows "filter_visibility cfg H self =
           self\<lparr>host := add_q H (Q [(FIELD_NAME cfg @ ''__isnull'', False)]) (host self),
                safedelete_filter_applied := True\<rparr>"
  using assms by (auto simp: filter_visibility_def Let_def config_ok_def)

lemma filter_visibility_visible_noop:
  assumes "config_ok cfg" "effective_visibility self = DELETED_VISIBLE cfg"
  shows "filter_visibility cfg H self = self"
  using assms by (auto simp: filter_visibility_def Let_def config_ok_def)

lemma filter_visibility_twice:
  "filter_visibility cfg H (filter_visibility cfg H self) = filter_visibility cfg H self"
  by (simp add: filter_visibility_def Let_def)

subsection \<open>The injected predicate\<close>

text \<open>
  C1. On a query that can still be filtered and whose \<open>filter_applied\<close> flag is false,
  \<open>filter_visibility\<close> with effective mode INVISIBLE, VISIBLE_BY_FIELD or ONLY_VISIBLE
  makes exactly one call of \<open>add_q\<close>, with the single condition
  \<open>FIELD_NAME__isnull\<close>: true (the marker is null) for INVISIBLE and VISIBLE_BY_FIELD,
  false (the marker is not null) for ONLY_VISIBLE. It sets the flag and changes nothing
  else.
\<close>

theorem filter_visibility_injects_one_predicate:
  assumes "config_ok cfg"
    and "can_filter H (host self)"
    and "\<not> safedelete_filter_applied self"
  shows "(effective_visibility self = DELETED_INVISIBLE cfg
            \<or> effective_visibility self = DELETED_VISIBLE_BY_FIELD cfg \<longrightarrow>
          filter_visibility cfg H self =
            self\<lparr>host := add_q H (Q [(FIELD_NAME cfg @ ''__isnull'', True)]) (host self),
                 safedelete_filter_applied := True\<rparr>)
       \<and> (effective_visibility self = DELETED_ONLY_VISIBLE cfg \<longrightarrow>
          filter_visibility cfg H self =
            self\<lparr>host := add_q H (Q [(FIELD_NAME cfg @ ''__isnull'', False)]) (host self),
                 safedelete_filter_applied := True\<rparr>)"
  using assms filter_visibility_null [of H self cfg] filter_visibility_not_null [of cfg H self]
  by blast

theorem filter_visibility_injects_one_predicate_witness:
  "filter_visibility example_config recording_host (example_query 10) =
     \<lparr>host = [AddQ (Q [(''deleted_at__isnull'', True)])],
      safedelete_filter_applied = True, safedelete_force_visibility = None,
      safedelete_visibility = 10, safedelete_visibility_field = ''include_deleted''\<rparr>
   \<and> filter_visibility example_config recording_host (example_query 11) =
     \<lparr>host = [AddQ (Q [(''deleted_at__isnull'', True)])],
      safedelete_filter_applied = True, safedelete_force_visibility = None,
      safedelete_visibility = 11, safedelete_visibility_field = ''include_deleted''\<rparr>
   \<and> filter_visibility example_config recording_host (example_query 12) =
     \<lparr>host = [AddQ (Q [(''deleted_at__isnull'', False)])],
      safedelete_filter_applied = True, safedelete_force_visibility = None,
      safedelete_visibility = 12, safedelete_visibility_field = ''include_deleted''\<rparr>"
  using filter_visibility_injects_one_predicate
          [OF config_ok_example, of recording_host "example_query 10"]
        filter_visibility_injects_one_predicate
          [OF config_ok_example, of recording_host "example_query 11"]
        filter_visibility_injects_one_predicate
          [OF config_ok_example, of recording_host "example_query 12"]
  by (simp add: example_config_def example_query_def recording_host_def
        effective_visibility_def)

text \<open>
  C3. With effective mode VISIBLE, \<open>filter_visibility\<close> changes nothing: no call of
  \<open>add_q\<close>, and the flag stays as it was. So when the query could be filtered and the
  flag was false, and \<open>force_visibility\<close> is assigned a filtering mode \<open>m\<close> afterwards,
  the next \<open>filter_visibility\<close> injects the predicate of \<open>m\<close>.
\<close>

theorem visible_mode_leaves_flag_unset:
  assumes "config_ok cfg"
    and "effective_visibility self = DELETED_VISIBLE cfg"
  shows "filter_visibility cfg H self = self
       \<and> (can_filter H (host self) \<and> \<not> safedelete_filter_applied self
            \<and> m \<in> set [DELETED_INVISIBLE cfg, DELETED_VISIBLE_BY_FIELD cfg,
                        DELETED_ONLY_VISIBLE cfg] \<longrightarrow>
          filter_visibility cfg H
              ((filter_visibility cfg H self)\<lparr>safedelete_force_visibility := Some m\<rparr>) =
            self\<lparr>host :=
                   add_q H
                     (Q [(FIELD_NAME cfg @ ''__isnull'',
                          m \<in> set [DELETED_INVISIBLE cfg, DELETED_VISIBLE_BY_FIELD cfg])])
                     (host self),
                 safedelete_filter_applied := True,
                 safedelete_force_visibility := Some m\<rparr>)"
proof -
  have noop: "filter_visibility cfg H self = self"
    using assms by (rule filter_visibility_visible_noop)
  have "filter_visibility cfg H (self\<lparr>safedelete_force_visibility := Some m\<rparr>) =
          self\<lparr>host :=
                 add_q H
                   (Q [(FIELD_NAME cfg @ ''__isnull'',
                        m \<in> set [DELETED_INVISIBLE cfg, DELETED_VISIBLE_BY_FIELD cfg])])
                   (host self),
               safedelete_filter_applied := True,
               safedelete_force_visibility := Some m\<rparr>"
    if "can_filter H (host self)" "\<not> safedelete_filter_applied self"
      "m \<in> set [DELETED_INVISIBLE cfg, DELETED_VISIBLE_BY_FIELD cfg, DELETED_ONLY_VISIBLE cfg]"
    using that by (simp add: filter_visibility_def effective_visibility_def Let_def)
  with noop show ?thesis by simp
qed

theorem visible_mode_leaves_flag_unset_witness:
  "filter_visibility example_config recording_host (example_query 13) = example_query 13
   \<and> filter_visibility example_config recording_host
        ((filter_visibility example_config recording_host (example_query 13))
           \<lparr>safedelete_force_visibility := Some 12\<rparr>) =
     \<lparr>host = [AddQ (Q [(''deleted_at__isnull'', False)])],
      safedelete_filter_applied = True, safedelete_force_visibility = Some 12,
      safedelete_visibility = 13, safedelete_visibility_field = ''include_deleted''\<rparr>"
  using visible_mode_leaves_flag_unset
          [OF config_ok_example, of "example_query 13" recording_host 12]
  by (simp add: example_config_def example_query_def recording_host_def
        effective_visibility_def filter_visibility_def)

text \<open>
  C9. When the precondition fails (the host says the query cannot be filtered any more,
  or the flag is already true) \<open>filter_visibility\<close> returns the query as it was: no
  predicate, no flag, no error.
\<close>

theorem filter_visibility_precondition_noop:
  assumes "\<not> can_filter H (host self) \<or> safedelete_filter_applied self"
  shows "filter_visibility cfg H self = self"
  using assms by (rule filter_visibility_noop)

theorem filter_visibility_precondition_noop_witness:
  "filter_visibility example_config recording_host
     ((example_query 10)\<lparr>host := [SuperSetLimits None (Some 5)]\<rparr>) =
     (example_query 10)\<lparr>host := [SuperSetLimits None (Some 5)]\<rparr>
   \<and> filter_visibility example_config recording_host
     ((example_query 10)\<lparr>safedelete_filter_applied := True\<rparr>) =
     (example_query 10)\<lparr>safedelete_filter_applied := True\<rparr>"
  using filter_visibility_precondition_noop
          [of recording_host "(example_query 10)\<lparr>host := [SuperSetLimits None (Some 5)]\<rparr>"
              example_config]
        filter_visibility_precondition_noop
          [of recording_host "(example_query 10)\<lparr>safedelete_filter_applied := True\<rparr>"
              example_config]
  by (simp add: example_query_def recording_host_def)

subsection \<open>The keyword trigger\<close>

text \<open>
  C6. For every dictionary of keyword arguments, \<open>check_field_filter\<close> assigns VISIBLE
  to \<open>force_visibility\<close> when the mode is VISIBLE_BY_FIELD and \<open>visibility_field\<close> is a
  key of the dictionary, and only then; otherwise the query is returned as it was. The
  function is total and yields the query alone: there is no error and no other result.
\<close>

theorem check_field_filter_sets_force_iff:
  "(safedelete_visibility self = DELETED_VISIBLE_BY_FIELD cfg
      \<and> safedelete_visibility_field self \<in> dom kwargs \<longrightarrow>
    check_field_filter cfg kwargs self =
      self\<lparr>safedelete_force_visibility := Some (DELETED_VISIBLE cfg)\<rparr>)
   \<and> (\<not> (safedelete_visibility self = DELETED_VISIBLE_BY_FIELD cfg
           \<and> safedelete_visibility_field self \<in> dom kwargs) \<longrightarrow>
      check_field_filter cfg kwargs self = self)"
  by (simp add: check_field_filter_def)

theorem check_field_filter_sets_force_iff_witness:
  "check_field_filter example_config [''include_deleted'' \<mapsto> True] (example_query 11) =
     (example_query 11)\<lparr>safedelete_force_visibility := Some 13\<rparr>
   \<and> check_field_filter example_config [''pk'' \<mapsto> True] (example_query 11) =
     example_query 11
   \<and> check_field_filter example_config [''include_deleted'' \<mapsto> True] (example_query 10) =
     example_query 10"
  using check_field_filter_sets_force_iff
          [of "example_query 11" example_config "[''include_deleted'' \<mapsto> True]"]
        check_field_filter_sets_force_iff
          [of "example_query 11" example_config "[''pk'' \<mapsto> True]"]
        check_field_filter_sets_force_iff
          [of "example_query 10" example_config "[''include_deleted'' \<mapsto> True]"]
  by (simp add: example_config_def example_query_def)


subsection \<open>Facts about sequences of calls\<close>

lemma step_keeps_flag:
  "safedelete_filter_applied self \<Longrightarrow> safedelete_filter_applied (snd (step cfg H x self))"
  by (cases x) (simp_all add: hook_defs Let_def split_def)

lemma run_keeps_flag:
  "safedelete_filter_applied self \<Longrightarrow> safedelete_filter_applied (snd (run cfg H xs self))"
  by (induction xs arbitrary: self) (simp_all add: step_keeps_flag)

lemma step_host_when_applied:
  "safedelete_filter_applied self \<Longrightarrow> host (snd (step cfg H x self)) = host_step H x (host self)"
  by (cases x) (simp_all add: hook_defs Let_def split_def)

lemma run_host_when_applied:
  "safedelete_filter_applied self \<Longrightarrow>
     host (snd (run cfg H xs self)) = host_run H xs (host self)"
  by (induction xs arbitrary: self)
     (simp_all add: step_keeps_flag step_host_when_applied)

lemma step_force:
  "safedelete_force_visibility self = Some m \<Longrightarrow>
     safedelete_force_visibility (snd (step cfg H x self)) = Some m
     \<or> safedelete_force_visibility (snd (step cfg H x self)) = Some (DELETED_VISIBLE cfg)"
  by (cases x) (simp_all add: hook_defs Let_def split_def)

lemma step_force_visible:
  "safedelete_force_visibility self = Some (DELETED_VISIBLE cfg) \<Longrightarrow>
     safedelete_force_visibility (snd (step cfg H x self)) = Some (DELETED_VISIBLE cfg)"
  using step_force [of self "DELETED_VISIBLE cfg" cfg H x] by auto

lemma run_force_visible:
  "safedelete_force_visibility self = Some (DELETED_VISIBLE cfg) \<Longrightarrow>
     safedelete_force_visibility (snd (run cfg H xs self)) = Some (DELETED_VISIBLE cfg)"
  by (induction xs arbitrary: self) (simp_all add: step_force_visible)

lemma run_force:
  "safedelete_force_visibility self = Some m \<Longrightarrow>
     safedelete_force_visibility (snd (run cfg H xs self)) = Some m
     \<or> safedelete_force_visibility (snd (run cfg H xs self)) = Some (DELETED_VISIBLE cfg)"
proof (induction xs arbitrary: self)
  case Nil
  then show ?case by simp
next
  case (Cons x xs)
  from step_force [OF Cons.prems, of cfg H x]
  show ?case
  proof
    assume "safedelete_force_visibility (snd (step cfg H x self)) = Some m"
    from Cons.IH [OF this] show ?thesis by simp
  next
    assume "safedelete_force_visibility (snd (step cfg H x self)) = Some (DELETED_VISIBLE cfg)"
    from run_force_visible [OF this, of H xs] show ?thesis by simp
  qed
qed

text \<open>
  A query in mode VISIBLE_BY_FIELD and the same query in mode INVISIBLE go through a call
  in step, as long as the call does not pass the keyword.
\<close>

lemma step_as_invisible:
  assumes "safedelete_visibility self = DELETED_VISIBLE_BY_FIELD cfg"
    and "never_passed (safedelete_visibility_field self) [x]"
  shows "step cfg H x (self\<lparr>safedelete_visibility := DELETED_INVISIBLE cfg\<rparr>) =
           (fst (step cfg H x self),
            (snd (step cfg H x self))\<lparr>safedelete_visibility := DELETED_INVISIBLE cfg\<rparr>)"
    and "safedelete_visibility (snd (step cfg H x self)) = DELETED_VISIBLE_BY_FIELD cfg"
    and "safedelete_visibility_field (snd (step cfg H x self)) = safedelete_visibility_field self"
  using assms by (cases x; simp add: hook_defs Let_def split_def split: option.splits)+

lemma never_passed_Cons:
  "never_passed f (x # xs) = (never_passed f [x] \<and> never_passed f xs)"
  by (cases x) simp_all

lemma run_as_invisible:
  assumes "safedelete_visibility self = DELETED_VISIBLE_BY_FIELD cfg"
    and "never_passed (safedelete_visibility_field self) xs"
  shows "run cfg H xs (self\<lparr>safedelete_visibility := DELETED_INVISIBLE cfg\<rparr>) =
           (fst (run cfg H xs self),
            (snd (run cfg H xs self))\<lparr>safedelete_visibility := DELETED_INVISIBLE cfg\<rparr>)"
  using assms
proof (induction xs arbitrary: self)
  case Nil
  then show ?case by simp
next
  case (Cons x xs)
  from Cons.prems(2) have one: "never_passed (safedelete_visibility_field self) [x]"
    and rest: "never_passed (safedelete_visibility_field self) xs"
    using never_passed_Cons [of "safedelete_visibility_field self" x xs] by simp_all
  note s = step_as_invisible [OF Cons.prems(1) one, of H]
  have "run cfg H xs ((snd (step cfg H x self))\<lparr>safedelete_visibility := DELETED_INVISIBLE cfg\<rparr>) =
           (fst (run cfg H xs (snd (step cfg H x self))),
            (snd (run cfg H xs (snd (step cfg H x self))))\<lparr>safedelete_visibility := DELETED_INVISIBLE cfg\<rparr>)"
    using Cons.IH [of "snd (step cfg H x self)"] s(2) s(3) rest by simp
  then show ?case using s(1) by simp
qed

text \<open>
  A triggered query (override VISIBLE) that has not been filtered is never filtered: under
  every sequence of calls its flag stays false and its host state moves by the base
  class's own methods alone, as that of a query in mode VISIBLE does.
\<close>

lemma step_triggered_unfiltered:
  assumes "config_ok cfg"
    and "safedelete_force_visibility self = Some (DELETED_VISIBLE cfg)"
    and "\<not> safedelete_filter_applied self"
  shows "\<not> safedelete_filter_applied (snd (step cfg H x self))"
    and "host (snd (step cfg H x self)) = host_step H x (host self)"
  using assms by (cases x; simp add: hook_defs config_ok_def Let_def split_def)+

lemma run_triggered_unfiltered:
  assumes "config_ok cfg"
    and "safedelete_force_visibility self = Some (DELETED_VISIBLE cfg)"
    and "\<not> safedelete_filter_applied self"
  shows "\<not> safedelete_filter_applied (snd (run cfg H xs self))
       \<and> host (snd (run cfg H xs self)) = host_run H xs (host self)"
  using assms(2,3)
proof (induction xs arbitrary: self)
  case Nil
  then show ?case by simp
next
  case (Cons x xs)
  note s = step_triggered_unfiltered [OF assms(1) Cons.prems, of H x]
  from step_force_visible [OF Cons.prems(1), of H x]
  have f: "safedelete_force_visibility (snd (step cfg H x self)) = Some (DELETED_VISIBLE cfg)" .
  from Cons.IH [OF f s(1)] s(2) show ?case by simp
qed

text \<open>
  A query in mode VISIBLE_BY_FIELD that is compiled first and triggered afterwards: for
  every host, the compiler its clone hands out is built from a state that went through
  \<open>add_q\<close> with "marker is null"; the compiler of a query in mode VISIBLE under the
  same calls is built from a state that never did.
\<close>

lemma trigger_after_filter_keeps_predicate:
  assumes "config_ok cfg"
    and "can_filter H (host self)" "\<not> safedelete_filter_applied self"
    and "safedelete_visibility self = DELETED_VISIBLE_BY_FIELD cfg"
    and "safedelete_force_visibility self = None"
    and "safedelete_visibility_field self \<in> dom kwargs"
  shows "fst (get_compiler cfg H b
                (clone H (check_field_filter cfg kwargs (snd (get_compiler cfg H a self))))) =
         fst (super_get_compiler H b
                (super_clone H
                   (snd (super_get_compiler H a
                           (add_q H (Q [(FIELD_NAME cfg @ ''__isnull'', True)]) (host self))))))"
    and "fst (get_compiler cfg H b
                (clone H (check_field_filter cfg kwargs
                   (snd (get_compiler cfg H a
                           (self\<lparr>safedelete_visibility := DELETED_VISIBLE cfg\<rparr>)))))) =
         fst (super_get_compiler H b
                (super_clone H (snd (super_get_compiler H a (host self)))))"
  using assms by (simp_all add: hook_defs config_ok_def Let_def split_def)

subsection \<open>VISIBLE_BY_FIELD after the keyword\<close>

text \<open>
  C2. A query in mode VISIBLE_BY_FIELD is to behave as one in mode INVISIBLE while no
  filter call passes the keyword, and as one in mode VISIBLE from the filter call that
  passes it, clones included; the docstring of \<^verbatim>\<open>check_field_filter\<close> says the
  same ("it will then filter on all models"). The code does not do the second when the
  query was compiled before the keyword arrived. Here a fresh query in mode
  VISIBLE_BY_FIELD goes through \<^verbatim>\<open>get_compiler()\<close>,
  \<^verbatim>\<open>check_field_filter(include_deleted=True)\<close>, \<^verbatim>\<open>clone()\<close> and
  \<^verbatim>\<open>get_compiler()\<close>: the first compilation injects "marker is null" and sets the
  flag, the trigger sets the override to VISIBLE, the clone inherits the flag, and the
  second compilation returns early, so the compiler handed out after the keyword still
  carries "marker is null". A query in mode VISIBLE under the same four calls carries no
  predicate at either compilation.
\<close>

theorem trigger_after_filter_still_excludes_deleted:
  "run example_config recording_host
     [GetCompiler (), CheckFieldFilter [''include_deleted'' \<mapsto> True], Clone, GetCompiler ()]
     (example_query 11) =
     ([[AddQ (Q [(''deleted_at__isnull'', True)])],
       [AddQ (Q [(''deleted_at__isnull'', True)]), SuperGetCompiler ()]],
      \<lparr>host = [AddQ (Q [(''deleted_at__isnull'', True)]), SuperGetCompiler (),
               SuperGetCompiler ()],
       safedelete_filter_applied = True, safedelete_force_visibility = Some 13,
       safedelete_visibility = 11, safedelete_visibility_field = ''include_deleted''\<rparr>)
   \<and> run example_config recording_host
     [GetCompiler (), CheckFieldFilter [''include_deleted'' \<mapsto> True], Clone, GetCompiler ()]
     (example_query 13) =
     ([[], [SuperGetCompiler ()]],
      \<lparr>host = [SuperGetCompiler (), SuperGetCompiler ()],
       safedelete_filter_applied = False, safedelete_force_visibility = None,
       safedelete_visibility = 13, safedelete_visibility_field = ''include_deleted''\<rparr>)"
  by (simp add: example_defs hook_defs)

subsection \<open>The flag and the override over a query's life\<close>

text \<open>
  C4. The \<open>filter_applied\<close> flag is monotone: a call on a query whose flag is true
  leaves it true, and so does every sequence of calls, clones included; a clone has its
  parent's flag. Once the flag is true the hook adds nothing: the host state moves by
  the base class's own methods alone. Calling \<open>filter_visibility\<close> twice gives what
  calling it once gives, so the predicate goes in at most once.
\<close>

theorem filter_applied_is_monotone:
  "(safedelete_filter_applied self \<longrightarrow>
      safedelete_filter_applied (snd (step cfg H x self))
      \<and> safedelete_filter_applied (snd (run cfg H xs self))
      \<and> host (snd (run cfg H xs self)) = host_run H xs (host self))
   \<and> safedelete_filter_applied (clone H self) = safedelete_filter_applied self
   \<and> filter_visibility cfg H (filter_visibility cfg H self) = filter_visibility cfg H self"
  using step_keeps_flag [of self cfg H x] run_keeps_flag [of self cfg H xs]
    run_host_when_applied [of self cfg H xs] filter_visibility_twice [of cfg H self]
  by (simp add: clone_def)

theorem filter_applied_is_monotone_witness:
  "safedelete_filter_applied
     (snd (run example_config recording_host
             [Clone, CheckFieldFilter [''include_deleted'' \<mapsto> True], GetCompiler (),
              SetLimits None (Some 5)]
             (filter_visibility example_config recording_host (example_query 11))))
   \<and> host
     (snd (run example_config recording_host
             [Clone, CheckFieldFilter [''include_deleted'' \<mapsto> True], GetCompiler (),
              SetLimits None (Some 5)]
             (filter_visibility example_config recording_host (example_query 11)))) =
     [AddQ (Q [(''deleted_at__isnull'', True)]), SuperGetCompiler (),
      SuperSetLimits None (Some 5)]
   \<and> filter_visibility example_config recording_host
       (filter_visibility example_config recording_host (example_query 11)) =
     \<lparr>host = [AddQ (Q [(''deleted_at__isnull'', True)])],
      safedelete_filter_applied = True, safedelete_force_visibility = None,
      safedelete_visibility = 11, safedelete_visibility_field = ''include_deleted''\<rparr>"
  using filter_applied_is_monotone
          [of "filter_visibility example_config recording_host (example_query 11)"
              example_config recording_host Clone
              "[Clone, CheckFieldFilter [''include_deleted'' \<mapsto> True], GetCompiler (),
                SetLimits None (Some 5)]"]
  by (simp add: example_defs hook_defs)

text \<open>
  C5. When \<open>force_visibility\<close> is set, it is the effective mode whatever
  \<open>visibility\<close> says. No sequence of calls unsets it: it keeps its value or becomes
  VISIBLE (the trigger), and an override that is VISIBLE stays VISIBLE, so the trigger is
  never undone. A clone has its parent's override and effective mode.
\<close>

theorem force_visibility_is_never_unset:
  "(safedelete_force_visibility self = Some m \<longrightarrow>
      effective_visibility self = m
      \<and> (safedelete_force_visibility (snd (run cfg H xs self)) = Some m
           \<or> safedelete_force_visibility (snd (run cfg H xs self)) = Some (DELETED_VISIBLE cfg))
      \<and> effective_visibility (snd (run cfg H xs self)) \<in> set [m, DELETED_VISIBLE cfg])
   \<and> (safedelete_force_visibility self = Some (DELETED_VISIBLE cfg) \<longrightarrow>
      safedelete_force_visibility (snd (run cfg H xs self)) = Some (DELETED_VISIBLE cfg)
      \<and> effective_visibility (snd (run cfg H xs self)) = DELETED_VISIBLE cfg)
   \<and> safedelete_force_visibility (clone H self) = safedelete_force_visibility self
   \<and> effective_visibility (clone H self) = effective_visibility self"
proof -
  have a: "effective_visibility self = m
      \<and> (safedelete_force_visibility (snd (run cfg H xs self)) = Some m
           \<or> safedelete_force_visibility (snd (run cfg H xs self)) = Some (DELETED_VISIBLE cfg))
      \<and> effective_visibility (snd (run cfg H xs self)) \<in> set [m, DELETED_VISIBLE cfg]"
    if "safedelete_force_visibility self = Some m"
    using that run_force [OF that, of cfg H xs]
    by (auto simp: effective_visibility_def)
  have b: "safedelete_force_visibility (snd (run cfg H xs self)) = Some (DELETED_VISIBLE cfg)
      \<and> effective_visibility (snd (run cfg H xs self)) = DELETED_VISIBLE cfg"
    if "safedelete_force_visibility self = Some (DELETED_VISIBLE cfg)"
    using run_force_visible [OF that, of H xs] by (simp add: effective_visibility_def)
  have c: "safedelete_force_visibility (clone H self) = safedelete_force_visibility self
      \<and> effective_visibility (clone H self) = effective_visibility self"
    by (simp add: clone_def effective_visibility_def split: option.splits)
  from a b c show ?thesis by blast
qed

theorem force_visibility_is_never_unset_witness:
  "effective_visibility ((example_query 11)\<lparr>safedelete_force_visibility := Some 12\<rparr>) = 12
   \<and> safedelete_force_visibility
       (snd (run example_config recording_host
               [Clone, CheckFieldFilter [''pk'' \<mapsto> True], GetCompiler (), Clone]
               ((example_query 11)\<lparr>safedelete_force_visibility := Some 12\<rparr>))) = Some 12
   \<and> safedelete_force_visibility
       (snd (run example_config recording_host
               [Clone, CheckFieldFilter [''include_deleted'' \<mapsto> True], GetCompiler ()]
               ((example_query 11)\<lparr>safedelete_force_visibility := Some 12\<rparr>))) = Some 13
   \<and> safedelete_force_visibility
       (snd (run example_config recording_host
               [Clone, CheckFieldFilter [''pk'' \<mapsto> True], GetCompiler (), Clone]
               (check_field_filter example_config [''include_deleted'' \<mapsto> True]
                  (example_query 11)))) = Some 13
   \<and> effective_visibility
       (snd (run example_config recording_host
               [Clone, CheckFieldFilter [''pk'' \<mapsto> True], GetCompiler (), Clone]
               (check_field_filter example_config [''include_deleted'' \<mapsto> True]
                  (example_query 11)))) = 13"
  using force_visibility_is_never_unset
          [of "(example_query 11)\<lparr>safedelete_force_visibility := Some 12\<rparr>"
              12 example_config recording_host
              "[Clone, CheckFieldFilter [''pk'' \<mapsto> True], GetCompiler (), Clone]"]
        force_visibility_is_never_unset
          [of "check_field_filter example_config [''include_deleted'' \<mapsto> True]
                 (example_query 11)"
              13 example_config recording_host
              "[Clone, CheckFieldFilter [''pk'' \<mapsto> True], GetCompiler (), Clone]"]
  by (simp add: example_defs hook_defs)

subsection \<open>Clones\<close>

text \<open>
  C7. A clone has its parent's \<open>visibility\<close>, \<open>visibility_field\<close>,
  \<open>filter_applied\<close> and \<open>force_visibility\<close> (so an override is there exactly when the
  parent had one), on the host state the base class's clone gives. In the store the clone
  is a new object at a new address: whatever is done to the clone afterwards leaves the
  parent as it was, and whatever is done to the parent leaves the clone as it was.
\<close>

theorem clone_copies_and_is_independent:
  "safedelete_visibility (clone H self) = safedelete_visibility self
   \<and> safedelete_visibility_field (clone H self) = safedelete_visibility_field self
   \<and> safedelete_filter_applied (clone H self) = safedelete_filter_applied self
   \<and> safedelete_force_visibility (clone H self) = safedelete_force_visibility self
   \<and> host (clone H self) = super_clone H (host self)
   \<and> (p < length \<sigma> \<longrightarrow>
        clone_at H p \<sigma> = Some (length \<sigma>, \<sigma> @ [clone H (\<sigma> ! p)])
        \<and> length \<sigma> \<noteq> p
        \<and> (\<forall>m. call_at m (length \<sigma>) (\<sigma> @ [clone H (\<sigma> ! p)]) =
                  Some (\<sigma> @ [m (clone H (\<sigma> ! p))]))
        \<and> (\<forall>m. call_at m p (\<sigma> @ [clone H (\<sigma> ! p)]) =
                  Some (\<sigma>[p := m (\<sigma> ! p)] @ [clone H (\<sigma> ! p)])))"
  by (simp add: clone_def clone_at_def call_at_def nth_append list_update_append)

theorem clone_copies_and_is_independent_witness:
  "clone recording_host
       ((example_query 11)\<lparr>host := [AddQ (Q [(''deleted_at__isnull'', True)])],
                            safedelete_filter_applied := True,
                            safedelete_force_visibility := Some 13\<rparr>) =
     \<lparr>host = [AddQ (Q [(''deleted_at__isnull'', True)])],
      safedelete_filter_applied = True, safedelete_force_visibility = Some 13,
      safedelete_visibility = 11, safedelete_visibility_field = ''include_deleted''\<rparr>
   \<and> clone_at recording_host 0 [example_query 11] =
     Some (1, [example_query 11, example_query 11])
   \<and> call_at (check_field_filter example_config [''include_deleted'' \<mapsto> True]) 1
       [example_query 11, example_query 11] =
     Some [example_query 11, (example_query 11)\<lparr>safedelete_force_visibility := Some 13\<rparr>]
   \<and> call_at (check_field_filter example_config [''include_deleted'' \<mapsto> True]) 0
       [example_query 11, example_query 11] =
     Some [(example_query 11)\<lparr>safedelete_force_visibility := Some 13\<rparr>, example_query 11]"
  using clone_copies_and_is_independent
          [of recording_host
              "(example_query 11)\<lparr>host := [AddQ (Q [(''deleted_at__isnull'', True)])],
                                   safedelete_filter_applied := True,
                                   safedelete_force_visibility := Some 13\<rparr>"
              0 "[example_query 11]"]
  by (simp add: example_defs hook_defs clone_at_def call_at_def)

subsection \<open>The two interception points\<close>

text \<open>
  C8. \<open>get_compiler\<close> and \<open>set_limits\<close> pass to the base method the host state that
  \<open>filter_visibility\<close> leaves. So on a query that can be filtered, with the flag false
  and a filtering mode, the base \<open>get_compiler\<close> builds its compiler from a state that
  already holds the predicate, and the base \<open>set_limits\<close> limits one.
\<close>

theorem interception_filters_before_delegating:
  "get_compiler cfg H args self =
     (fst (super_get_compiler H args (host (filter_visibility cfg H self))),
      (filter_visibility cfg H self)
        \<lparr>host := snd (super_get_compiler H args (host (filter_visibility cfg H self)))\<rparr>)
   \<and> set_limits cfg H low high self =
     (filter_visibility cfg H self)
       \<lparr>host := super_set_limits H low high (host (filter_visibility cfg H self))\<rparr>
   \<and> (can_filter H (host self) \<and> \<not> safedelete_filter_applied self
        \<and> effective_visibility self \<in> set [DELETED_INVISIBLE cfg, DELETED_VISIBLE_BY_FIELD cfg,
                                            DELETED_ONLY_VISIBLE cfg] \<longrightarrow>
      fst (get_compiler cfg H args self) =
        fst (super_get_compiler H args
               (add_q H
                  (Q [(FIELD_NAME cfg @ ''__isnull'',
                       effective_visibility self \<in> set [DELETED_INVISIBLE cfg,
                                                         DELETED_VISIBLE_BY_FIELD cfg])])
                  (host self)))
      \<and> host (set_limits cfg H low high self) =
        super_set_limits H low high
          (add_q H
             (Q [(FIELD_NAME cfg @ ''__isnull'',
                  effective_visibility self \<in> set [DELETED_INVISIBLE cfg,
                                                    DELETED_VISIBLE_BY_FIELD cfg])])
             (host self)))"
  by (simp add: get_compiler_def set_limits_def filter_visibility_def Let_def split_def)

theorem interception_filters_before_delegating_witness:
  "get_compiler example_config recording_host () (example_query 10) =
     ([AddQ (Q [(''deleted_at__isnull'', True)])],
      \<lparr>host = [AddQ (Q [(''deleted_at__isnull'', True)]), SuperGetCompiler ()],
       safedelete_filter_applied = True, safedelete_force_visibility = None,
       safedelete_visibility = 10, safedelete_visibility_field = ''include_deleted''\<rparr>)
   \<and> set_limits example_config recording_host None (Some 5) (example_query 12) =
     \<lparr>host = [AddQ (Q [(''deleted_at__isnull'', False)]), SuperSetLimits None (Some 5)],
      safedelete_filter_applied = True, safedelete_force_visibility = None,
      safedelete_visibility = 12, safedelete_visibility_field = ''include_deleted''\<rparr>"
  using interception_filters_before_delegating
          [of example_config recording_host "()" "example_query 10" None "Some 5"]
        interception_filters_before_delegating
          [of example_config recording_host "()" "example_query 12" None "Some 5"]
  by (simp add: example_defs hook_defs)

subsection \<open>An injected predicate stays\<close>

text \<open>
  C10. \<open>check_field_filter\<close> touches neither the host state nor the flag. Once the flag
  is true, \<open>filter_visibility\<close> is the identity after the trigger and after every
  sequence of calls, and the host state moves by the base class's own methods alone. In
  particular, on a VISIBLE_BY_FIELD query that was filtered first and triggered afterwards,
  the predicate "marker is null" is still in the host state, the flag is true and the
  override is VISIBLE.
\<close>

theorem injected_predicate_is_never_removed:
  "host (check_field_filter cfg kwargs self) = host self
   \<and> safedelete_filter_applied (check_field_filter cfg kwargs self) =
       safedelete_filter_applied self
   \<and> (safedelete_filter_applied self \<longrightarrow>
        filter_visibility cfg H (check_field_filter cfg kwargs self) =
          check_field_filter cfg kwargs self
        \<and> filter_visibility cfg H (snd (run cfg H xs self)) = snd (run cfg H xs self)
        \<and> host (snd (run cfg H xs self)) = host_run H xs (host self))
   \<and> (can_filter H (host self) \<and> \<not> safedelete_filter_applied self
        \<and> safedelete_visibility self = DELETED_VISIBLE_BY_FIELD cfg
        \<and> safedelete_force_visibility self = None
        \<and> safedelete_visibility_field self \<in> dom kwargs \<longrightarrow>
        check_field_filter cfg kwargs (filter_visibility cfg H self) =
          self\<lparr>host := add_q H (Q [(FIELD_NAME cfg @ ''__isnull'', True)]) (host self),
               safedelete_filter_applied := True,
               safedelete_force_visibility := Some (DELETED_VISIBLE cfg)\<rparr>)"
proof -
  have a: "host (check_field_filter cfg kwargs self) = host self
      \<and> safedelete_filter_applied (check_field_filter cfg kwargs self) =
          safedelete_filter_applied self"
    by (simp add: check_field_filter_def)
  have b: "filter_visibility cfg H (check_field_filter cfg kwargs self) =
          check_field_filter cfg kwargs self
        \<and> filter_visibility cfg H (snd (run cfg H xs self)) = snd (run cfg H xs self)
        \<and> host (snd (run cfg H xs self)) = host_run H xs (host self)"
    if "safedelete_filter_applied self"
    using that a run_keeps_flag [OF that, of cfg H xs] run_host_when_applied [OF that, of cfg H xs]
    by (simp add: filter_visibility_noop)
  have c: "check_field_filter cfg kwargs (filter_visibility cfg H self) =
          self\<lparr>host := add_q H (Q [(FIELD_NAME cfg @ ''__isnull'', True)]) (host self),
               safedelete_filter_applied := True,
               safedelete_force_visibility := Some (DELETED_VISIBLE cfg)\<rparr>"
    if "can_filter H (host self)" "\<not> safedelete_filter_applied self"
      "safedelete_visibility self = DELETED_VISIBLE_BY_FIELD cfg"
      "safedelete_force_visibility self = None"
      "safedelete_visibility_field self \<in> dom kwargs"
    using that by (simp add: hook_defs)
  from a b c show ?thesis by blast
qed

theorem injected_predicate_is_never_removed_witness:
  "check_field_filter example_config [''include_deleted'' \<mapsto> True]
       (filter_visibility example_config recording_host (example_query 11)) =
     \<lparr>host = [AddQ (Q [(''deleted_at__isnull'', True)])],
      safedelete_filter_applied = True, safedelete_force_visibility = Some 13,
      safedelete_visibility = 11, safedelete_visibility_field = ''include_deleted''\<rparr>
   \<and> run example_config recording_host
       [CheckFieldFilter [''include_deleted'' \<mapsto> True], FilterVisibility, Clone,
        GetCompiler ()]
       (filter_visibility example_config recording_host (example_query 11)) =
     ([[AddQ (Q [(''deleted_at__isnull'', True)])]],
      \<lparr>host = [AddQ (Q [(''deleted_at__isnull'', True)]), SuperGetCompiler ()],
       safedelete_filter_applied = True, safedelete_force_visibility = Some 13,
       safedelete_visibility = 11, safedelete_visibility_field = ''include_deleted''\<rparr>)
   \<and> host_run recording_host
       [CheckFieldFilter [''include_deleted'' \<mapsto> True], FilterVisibility, Clone,
        GetCompiler ()]
       [AddQ (Q [(''deleted_at__isnull'', True)])] =
     [AddQ (Q [(''deleted_at__isnull'', True)]), SuperGetCompiler ()]"
  using injected_predicate_is_never_removed
          [of example_config "[''include_deleted'' \<mapsto> True]" "example_query 11"
              recording_host "[]"]
        injected_predicate_is_never_removed
          [of example_config "[''include_deleted'' \<mapsto> True]"
              "filter_visibility example_config recording_host (example_query 11)"
              recording_host
              "[CheckFieldFilter [''include_deleted'' \<mapsto> True], FilterVisibility, Clone,
                GetCompiler ()]"]
  by (simp add: example_defs hook_defs)

end
